theory Spec2Isabelle
  imports Main
begin

section \<open>Data of the OneLogin flow (src/onelogin/get.go)\<close>

text \<open>
  A Go \<open>error\<close> value is represented by its message: \<open>err.Error()\<close> is \<open>err_Error err\<close>,
  \<open>errors.New s\<close> and \<open>fmt.Errorf\<close> build \<open>Error s\<close>.
\<close>

datatype error = Error string

fun err_Error :: "error \<Rightarrow> string" where
  "err_Error (Error s) = s"

text \<open>
  The structs of the package that \<open>Get\<close> and \<open>getDevice\<close> read or build, with the fields
  these two functions use. \<open>DeviceId\<close> is an integer: line 204 prints it with \<open>%d\<close>.
\<close>

record Device =
  DeviceId :: int
  DeviceType :: string

record SamlData =
  StateToken :: string
  Devices :: "Device list"

record GenerateSamlAssertionResponse =
  Data :: "SamlData list"

record GenerateSamlAssertionParams =
  UsernameOrEmail :: string
  Password :: string
  SamlAppId :: string
  Subdomain :: string

record VerifyFactorParams =
  AppId :: string
  DeviceIdParam :: string
  StateTokenParam :: string
  OtpToken :: string
  DoNotNotify :: bool

record VerifyFactorResponse =
  StatusType :: string
  StatusMessage :: string
  MfaData :: string

record OneLoginProvider =
  Region :: string
  ClientID :: string
  ClientSecret :: string
  Username :: string
  ProviderSubdomain :: string

record OneLoginApp =
  ID :: string

record ARN =
  Provider :: string
  Role :: string

record Credentials =
  AccessKeyId :: string
  SecretAccessKey :: string
  SessionToken :: string

text \<open>The constants of lines 18-29.\<close>

definition MFADeviceOneLoginProtect :: string where
  "MFADeviceOneLoginProtect = ''OneLogin Protect''"

definition MFAPushTimeout :: int where
  "MFAPushTimeout = 30"

definition MFAInterval :: int where
  "MFAInterval = 1"

section \<open>Effects\<close>

text \<open>
  Everything \<open>Get\<close> does to the outside world is recorded, in order, in a trace of events:
  text written to standard output, a line logged, a call of \<open>fmt.Scanln\<close>, a call of
  \<open>gopass.GetPasswd\<close>, a \<open>time.Sleep\<close> of so many seconds, the spinner, and the calls to
  the OneLogin client and to AWS with their arguments.
\<close>

datatype event =
    Stdout string
  | LogPrintln string
  | Scanln
  | GetPasswd
  | Sleep int
  | SpinnerStart
  | SpinnerStop
  | GenerateTokens string string
  | GenerateSamlAssertion string GenerateSamlAssertionParams
  | VerifyFactor string VerifyFactorParams
  | AssumeSAMLRole string string string int

text \<open>
  The collaborators of \<open>Get\<close> are not part of get.go; they are parameters of the model.
  A collaborator that is called several times answers its \<open>n\<close>-th call (counted from 0)
  from the number \<open>n\<close> and the arguments of the call, so that any deterministic run of
  the outside world can be described. \<open>fmt.Scanln\<close> yields the string it stored and its
  error; the other calls return either an error or a result; the client built by
  \<open>NewClient\<close> is opaque, its methods are the three \<open>c_\<close> fields. The two string
  constants of package \<open>aws\<close> that line 175 and 176 read are parameters as well.
\<close>

record env =
  config_GetOneLoginProvider :: "string \<Rightarrow> error + OneLoginProvider"
  config_GetOneLoginApp :: "string \<Rightarrow> error + OneLoginApp"
  NewClient :: "string \<Rightarrow> error option"
  c_GenerateTokens :: "string \<Rightarrow> string \<Rightarrow> error + string"
  c_GenerateSamlAssertion :: "string \<Rightarrow> GenerateSamlAssertionParams \<Rightarrow> error + GenerateSamlAssertionResponse"
  c_VerifyFactor :: "nat \<Rightarrow> string \<Rightarrow> VerifyFactorParams \<Rightarrow> error + VerifyFactorResponse"
  fmt_Scanln :: "nat \<Rightarrow> string \<times> error option"
  gopass_GetPasswd :: "error + string"
  saml_Get :: "string \<Rightarrow> error + ARN"
  aws_AssumeSAMLRole :: "nat \<Rightarrow> string \<Rightarrow> string \<Rightarrow> string \<Rightarrow> int \<Rightarrow> error + Credentials"
  aws_ErrDurationExceeded :: string
  aws_DurationExceededMessage :: string

text \<open>How many calls of each repeated collaborator a trace holds.\<close>

fun scanned :: "event list \<Rightarrow> nat" where
  "scanned [] = 0"
| "scanned (Scanln # tr) = Suc (scanned tr)"
| "scanned (_ # tr) = scanned tr"

fun verify_calls :: "event list \<Rightarrow> VerifyFactorParams list" where
  "verify_calls [] = []"
| "verify_calls (VerifyFactor token p # tr) = p # verify_calls tr"
| "verify_calls (_ # tr) = verify_calls tr"

fun assume_calls :: "event list \<Rightarrow> int list" where
  "assume_calls [] = []"
| "assume_calls (AssumeSAMLRole provider role d duration # tr) = duration # assume_calls tr"
| "assume_calls (_ # tr) = assume_calls tr"

section \<open>Library functions\<close>

definition newline :: string where
  "newline = [CHR 0x0A]"

text \<open>\<open>%d\<close> and \<open>%v\<close> of an integer: its decimal digits, with a minus sign when negative.\<close>

fun decimal :: "nat \<Rightarrow> string" where
  "decimal n = (if n < 10 then [''0123456789'' ! n]
                else decimal (n div 10) @ [''0123456789'' ! (n mod 10)])"

declare decimal.simps [simp del]

definition Sprint_int :: "int \<Rightarrow> string" where
  "Sprint_int i = (if i < 0 then CHR ''-'' # decimal (nat (- i)) else decimal (nat i))"

text \<open>
  \<open>strconv.Atoi\<close>: an optional sign, then at least one decimal digit and nothing else;
  a value outside the range of a 64-bit \<open>int\<close> is an error too. \<open>None\<close> is the error.
\<close>

definition is_digit :: "char \<Rightarrow> bool" where
  "is_digit c = (48 \<le> (of_char c :: nat) \<and> (of_char c :: nat) \<le> 57)"

definition digits_value :: "string \<Rightarrow> int" where
  "digits_value ds = foldl (\<lambda>n c. n * 10 + ((of_char c :: int) - 48)) 0 ds"

definition Atoi :: "string \<Rightarrow> int option" where
  "Atoi s =
     (let neg = (case s of [] \<Rightarrow> False | c # r \<Rightarrow> c = CHR ''-'');
          ds = (case s of [] \<Rightarrow> [] | c # r \<Rightarrow> if c = CHR ''-'' \<or> c = CHR ''+'' then r else s)
      in if ds = [] \<or> \<not> list_all is_digit ds then None
         else let v = (if neg then - digits_value ds else digits_value ds)
              in if v < - (2 ^ 63) \<or> 2 ^ 63 - 1 < v then None else Some v)"

section \<open>getDevice (lines 189-233)\<close>

text \<open>Lines 203-207: the enumeration of the devices and the prompt.\<close>

definition device_line :: "nat \<times> Device \<Rightarrow> event" where
  "device_line p = Stdout (Sprint_int (int (fst p) + 1) @ ''. '' @ Sprint_int (DeviceId (snd p))
                     @ '' - '' @ DeviceType (snd p) @ newline)"

definition device_menu :: "Device list \<Rightarrow> event list" where
  "device_menu devices = map device_line (enumerate 0 devices)
     @ [Stdout (''Please choose an MFA device to authenticate with (1-''
                @ Sprint_int (int (length devices)) @ ''): '')]"

text \<open>
  The loop of lines 202-228. It returns the trace and the selection once an input passes
  the three checks, and has no bound on the number of rounds: \<open>None\<close> is the run that
  never leaves the loop.
\<close>

partial_function (option) getDevice_loop ::
  "env \<Rightarrow> Device list \<Rightarrow> event list \<Rightarrow> (event list \<times> int) option" where
  "getDevice_loop E devices tr =
     (let tr1 = tr @ device_menu devices;
          r = fmt_Scanln E (scanned tr1);
          tr2 = tr1 @ [Scanln]
      in case snd r of
           Some err \<Rightarrow>
             getDevice_loop E devices
               (tr2 @ [Stdout (''Error reading input: '' @ err_Error err @ newline)])
         | None \<Rightarrow>
             (case Atoi (fst r) of
                None \<Rightarrow>
                  getDevice_loop E devices
                    (tr2 @ [Stdout (''Invalid input '' @ [CHR 0x27] @ fst r @ [CHR 0x27] @ newline)])
              | Some selection \<Rightarrow>
                  if selection < 1 \<or> selection > int (length devices)
                  then getDevice_loop E devices
                         (tr2 @ [Stdout (''Invalid MFA device selected'' @ newline)])
                  else Some (tr2, selection)))"

declare getDevice_loop.simps [code]

text \<open>
  \<open>getDevice\<close> returns \<open>(deviceID, deviceType, err)\<close>; the named results are the empty
  string and \<open>nil\<close> until assigned.
\<close>

definition getDevice ::
  "env \<Rightarrow> Device list \<Rightarrow> event list \<Rightarrow> (event list \<times> string \<times> string \<times> error option) option" where
  "getDevice E devices tr =
     (if length devices = 0
      then Some (tr, [], [], Some (Error ''No MFA device returned by Onelogin''))
      else if length devices = 1
      then Some (tr, Sprint_int (DeviceId (devices ! 0)), DeviceType (devices ! 0), None)
      else case getDevice_loop E devices tr of
             None \<Rightarrow> None
           | Some (tr', selection) \<Rightarrow>
               Some (tr', Sprint_int (DeviceId (devices ! nat (selection - 1))),
                     DeviceType (devices ! nat (selection - 1)), None))"

section \<open>Get (lines 33-184)\<close>

text \<open>
  \<open>Get\<close> returns \<open>(creds, err)\<close> with exactly one of the two set, or panics at the index
  expression of line 91; a run that never returns is \<open>None\<close> (see \<open>getDevice_loop\<close>).
\<close>

datatype outcome = Returned "error + Credentials" | Panicked

text \<open>
  Lines 34-89: configuration, client, access token, user name, password and the SAML
  assertion request. The results that the rest of \<open>Get\<close> reads are \<open>a\<close>, \<open>token\<close> and
  \<open>rSaml\<close>.
\<close>

definition Get_login ::
  "env \<Rightarrow> string \<Rightarrow> string \<Rightarrow>
     event list \<times> (error + OneLoginApp \<times> string \<times> GenerateSamlAssertionResponse)" where
  "Get_login E app provider =
     (case config_GetOneLoginProvider E provider of
        Inl err \<Rightarrow> ([], Inl (Error (''reading provider config: '' @ err_Error err)))
      | Inr p \<Rightarrow>
     (case config_GetOneLoginApp E app of
        Inl err \<Rightarrow> ([], Inl (Error (''reading config for app '' @ app @ '': '' @ err_Error err)))
      | Inr a \<Rightarrow>
     (case NewClient E (Region p) of
        Some err \<Rightarrow> ([], Inl err)
      | None \<Rightarrow>
     (let tr1 = [SpinnerStart, GenerateTokens (ClientID p) (ClientSecret p), SpinnerStop]
      in case c_GenerateTokens E (ClientID p) (ClientSecret p) of
        Inl err \<Rightarrow> (tr1, Inl (Error (''generating access token: '' @ err_Error err)))
      | Inr token \<Rightarrow>
     (let user = (if Username p = [] then fst (fmt_Scanln E (scanned tr1)) else Username p);
          tr2 = (if Username p = [] then tr1 @ [Stdout ''OneLogin username: '', Scanln] else tr1);
          tr3 = tr2 @ [Stdout ''OneLogin password: '', GetPasswd]
      in case gopass_GetPasswd E of
        Inl err \<Rightarrow> (tr3, Inl (Error (''Couldn'' @ [CHR 0x27] @ ''t read password from terminal'')))
      | Inr pass \<Rightarrow>
     (let pSAML = \<lparr>UsernameOrEmail = user, Password = pass, SamlAppId = ID a,
                   Subdomain = ProviderSubdomain p\<rparr>;
          tr4 = tr3 @ [SpinnerStart, GenerateSamlAssertion token pSAML, SpinnerStop]
      in case c_GenerateSamlAssertion E token pSAML of
        Inl err \<Rightarrow> (tr4, Inl (Error (''generating SAML assertion: '' @ err_Error err)))
      | Inr rSaml \<Rightarrow> (tr4, Inr (a, token, rSaml))))))))"

text \<open>
  Lines 124-133: the poll loop. \<open>rMfa\<close> is the latest response and \<open>timeout\<close> the seconds
  left; an error of a poll stops the spinner and leaves \<open>Get\<close>.
\<close>

function Get_poll ::
  "env \<Rightarrow> string \<Rightarrow> VerifyFactorParams \<Rightarrow> event list \<Rightarrow> VerifyFactorResponse \<Rightarrow> int \<Rightarrow>
     event list \<times> (error + VerifyFactorResponse)" where
  "Get_poll E token pMfa tr rMfa timeout =
     (if StatusType rMfa = ''pending'' \<and> timeout > 0
      then (let tr1 = tr @ [Sleep MFAInterval]
            in case c_VerifyFactor E (length (verify_calls tr1)) token pMfa of
                 Inl err \<Rightarrow> (tr1 @ [VerifyFactor token pMfa, SpinnerStop], Inl err)
               | Inr r \<Rightarrow>
                   Get_poll E token pMfa (tr1 @ [VerifyFactor token pMfa]) r (timeout - MFAInterval))
      else (tr, Inr rMfa))"
  by pat_completeness auto
termination
  by (relation "measure (\<lambda>(E, token, pMfa, tr, rMfa, timeout). nat timeout)")
     (auto simp: MFAInterval_def)

declare Get_poll.simps [simp del]

text \<open>
  Lines 101-139, the body of \<open>if deviceType == MFADeviceOneLoginProtect\<close>: the first
  call, the poll loop and the test of line 136. The result is \<open>(rMfa, pushOK)\<close>.
\<close>

definition Get_push ::
  "env \<Rightarrow> OneLoginApp \<Rightarrow> string \<Rightarrow> string \<Rightarrow> string \<Rightarrow> event list \<Rightarrow>
     event list \<times> (error + VerifyFactorResponse \<times> bool)" where
  "Get_push E a token deviceID st tr =
     (let pMfa = \<lparr>AppId = ID a, DeviceIdParam = deviceID, StateTokenParam = st,
                  OtpToken = [], DoNotNotify = False\<rparr>;
          tr1 = tr @ [SpinnerStart, VerifyFactor token pMfa, SpinnerStop]
      in case c_VerifyFactor E (length (verify_calls tr)) token pMfa of
           Inl err \<Rightarrow> (tr1, Inl err)
         | Inr rMfa \<Rightarrow>
             (let pMfa' = pMfa\<lparr>DoNotNotify := True\<rparr>;
                  tr2 = tr1 @ [Stdout (StatusMessage rMfa @ newline), SpinnerStart]
              in case Get_poll E token pMfa' tr2 rMfa MFAPushTimeout of
                   (tr3, Inl err) \<Rightarrow> (tr3, Inl err)
                 | (tr3, Inr rMfa') \<Rightarrow>
                     if StatusType rMfa' = ''pending''
                     then (tr3 @ [SpinnerStop,
                                  Stdout (''MFA verification timed out - falling back to manual OTP input''
                                          @ newline)],
                           Inr (rMfa', False))
                     else (tr3 @ [SpinnerStop], Inr (rMfa', True))))"

text \<open>Lines 143-162, the body of \<open>if !pushOK\<close>: the prompt, the code read, one call.\<close>

definition Get_otp ::
  "env \<Rightarrow> OneLoginApp \<Rightarrow> string \<Rightarrow> string \<Rightarrow> string \<Rightarrow> event list \<Rightarrow>
     event list \<times> (error + VerifyFactorResponse)" where
  "Get_otp E a token deviceID st tr =
     (let tr1 = tr @ [Stdout ''Please enter the OTP from your MFA device: ''];
          otp = fst (fmt_Scanln E (scanned tr1));
          pMfa = \<lparr>AppId = ID a, DeviceIdParam = deviceID, StateTokenParam = st,
                  OtpToken = otp, DoNotNotify = False\<rparr>;
          tr2 = tr1 @ [Scanln, SpinnerStart, VerifyFactor token pMfa, SpinnerStop]
      in case c_VerifyFactor E (length (verify_calls tr1)) token pMfa of
           Inl err \<Rightarrow> (tr2, Inl (Error (''verifying factor: '' @ err_Error err)))
         | Inr rMfa \<Rightarrow> (tr2, Inr rMfa))"

text \<open>Lines 96-163: push when the device type is OneLogin Protect, the code otherwise.\<close>

definition Get_mfa ::
  "env \<Rightarrow> OneLoginApp \<Rightarrow> string \<Rightarrow> string \<Rightarrow> string \<Rightarrow> string \<Rightarrow> event list \<Rightarrow>
     event list \<times> (error + VerifyFactorResponse)" where
  "Get_mfa E a token deviceID deviceType st tr =
     (if deviceType = MFADeviceOneLoginProtect
      then (case Get_push E a token deviceID st tr of
              (tr1, Inl err) \<Rightarrow> (tr1, Inl err)
            | (tr1, Inr (rMfa, pushOK)) \<Rightarrow>
                if \<not> pushOK then Get_otp E a token deviceID st tr1 else (tr1, Inr rMfa))
      else Get_otp E a token deviceID st tr)"

text \<open>
  Lines 165-183: the role of the assertion, the first \<open>aws.AssumeSAMLRole\<close> and, when its
  error message is \<open>aws.ErrDurationExceeded\<close>, the logged message and the second call
  with 3600 seconds. The colour of the logged line is not modelled.
\<close>

definition Get_exchange ::
  "env \<Rightarrow> VerifyFactorResponse \<Rightarrow> int \<Rightarrow> event list \<Rightarrow> event list \<times> (error + Credentials)" where
  "Get_exchange E rMfa duration tr =
     (case saml_Get E (MfaData rMfa) of
        Inl err \<Rightarrow> (tr, Inl err)
      | Inr arn \<Rightarrow>
          (let tr1 = tr @ [SpinnerStart,
                           AssumeSAMLRole (Provider arn) (Role arn) (MfaData rMfa) duration,
                           SpinnerStop]
           in case aws_AssumeSAMLRole E (length (assume_calls tr))
                     (Provider arn) (Role arn) (MfaData rMfa) duration of
                Inr creds \<Rightarrow> (tr1, Inr creds)
              | Inl err \<Rightarrow>
                  if err_Error err = aws_ErrDurationExceeded E
                  then (tr1 @ [LogPrintln (aws_DurationExceededMessage E), SpinnerStart,
                               AssumeSAMLRole (Provider arn) (Role arn) (MfaData rMfa) 3600,
                               SpinnerStop],
                        aws_AssumeSAMLRole E (length (assume_calls tr1))
                          (Provider arn) (Role arn) (MfaData rMfa) 3600)
                  else (tr1, Inl err)))"

text \<open>
  Lines 94-183, from the device set and the state token of the challenge on. Line 94
  stores the error of \<open>getDevice\<close> in \<open>err\<close>; no line reads it before the next
  assignment to \<open>err\<close>, so the model binds it and goes on.
\<close>

definition Get_challenge ::
  "env \<Rightarrow> OneLoginApp \<Rightarrow> string \<Rightarrow> string \<Rightarrow> Device list \<Rightarrow> int \<Rightarrow> event list \<Rightarrow>
     (event list \<times> outcome) option" where
  "Get_challenge E a token st devices duration tr =
     (case getDevice E devices tr of
        None \<Rightarrow> None
      | Some (tr1, deviceID, deviceType, err) \<Rightarrow>
          (case Get_mfa E a token deviceID deviceType st tr1 of
             (tr2, Inl err') \<Rightarrow> Some (tr2, Returned (Inl err'))
           | (tr2, Inr rMfa) \<Rightarrow>
               (case Get_exchange E rMfa duration tr2 of
                  (tr3, res) \<Rightarrow> Some (tr3, Returned res))))"

text \<open>
  The whole of \<open>Get\<close>: lines 34-89, then \<open>rSaml.Data[0]\<close> of lines 91 and 93, which
  panics when \<open>Data\<close> is empty, then the rest.
\<close>

definition Get :: "env \<Rightarrow> string \<Rightarrow> string \<Rightarrow> int \<Rightarrow> (event list \<times> outcome) option" where
  "Get E app provider duration =
     (case Get_login E app provider of
        (tr, Inl err) \<Rightarrow> Some (tr, Returned (Inl err))
      | (tr, Inr (a, token, rSaml)) \<Rightarrow>
          (case Data rSaml of
             [] \<Rightarrow> Some (tr, Panicked)
           | d # ds \<Rightarrow> Get_challenge E a token (StateToken d) (Devices d) duration tr))"

section \<open>Runs of the outside world used to state and to instantiate the properties\<close>

text \<open>
  An input line passes the checks of lines 210-226 when it was read without error and
  \<open>strconv.Atoi\<close> gives an integer between 1 and the number of devices.
\<close>

definition valid_choice :: "Device list \<Rightarrow> string \<times> error option \<Rightarrow> bool" where
  "valid_choice devices r =
     (snd r = None \<and>
      (case Atoi (fst r) of None \<Rightarrow> False | Some k \<Rightarrow> 1 \<le> k \<and> k \<le> int (length devices)))"

text \<open>The line that lines 211, 218 and 224 print for an input that fails a check.\<close>

definition complaint :: "string \<times> error option \<Rightarrow> event" where
  "complaint r =
     (case snd r of
        Some err \<Rightarrow> Stdout (''Error reading input: '' @ err_Error err @ newline)
      | None \<Rightarrow>
          (case Atoi (fst r) of
             None \<Rightarrow> Stdout (''Invalid input '' @ [CHR 0x27] @ fst r @ [CHR 0x27] @ newline)
           | Some k \<Rightarrow> Stdout (''Invalid MFA device selected'' @ newline)))"

text \<open>
  The events of \<open>m\<close> rounds of the selection loop that end in a complaint, the first of
  them reading input number \<open>n\<close>.
\<close>

fun reprompts :: "env \<Rightarrow> Device list \<Rightarrow> nat \<Rightarrow> nat \<Rightarrow> event list" where
  "reprompts E devices n 0 = []"
| "reprompts E devices n (Suc m) =
     device_menu devices @ [Scanln, complaint (fmt_Scanln E n)] @ reprompts E devices (Suc n) m"

text \<open>The parameters of the verify-factor calls of the push phase (lines 103-109, 118).\<close>

definition push_params :: "OneLoginApp \<Rightarrow> string \<Rightarrow> string \<Rightarrow> bool \<Rightarrow> VerifyFactorParams" where
  "push_params a deviceID st quiet =
     \<lparr>AppId = ID a, DeviceIdParam = deviceID, StateTokenParam = st,
      OtpToken = [], DoNotNotify = quiet\<rparr>"

text \<open>The events of \<open>k\<close> polls: a sleep of one interval, then the call.\<close>

definition polls :: "string \<Rightarrow> VerifyFactorParams \<Rightarrow> nat \<Rightarrow> event list" where
  "polls token p k = concat (replicate k [Sleep MFAInterval, VerifyFactor token p])"

text \<open>A verify-factor call that returned a response whose status is \<open>pending\<close>.\<close>

definition pending_reply :: "error + VerifyFactorResponse \<Rightarrow> bool" where
  "pending_reply x = (case x of Inl e \<Rightarrow> False | Inr r \<Rightarrow> StatusType r = ''pending'')"

text \<open>
  The events of the push phase up to and including \<open>k\<close> polls (lines 111-133): the first
  call between spinner start and stop, the status message printed by line 120, the
  spinner started again, the polls.
\<close>

definition push_events ::
  "OneLoginApp \<Rightarrow> string \<Rightarrow> string \<Rightarrow> string \<Rightarrow> string \<Rightarrow> nat \<Rightarrow> event list" where
  "push_events a token deviceID st msg k =
     [SpinnerStart, VerifyFactor token (push_params a deviceID st False), SpinnerStop,
      Stdout msg, SpinnerStart] @ polls token (push_params a deviceID st True) k"

text \<open>Line 137.\<close>

definition timeout_notice :: event where
  "timeout_notice =
     Stdout (''MFA verification timed out - falling back to manual OTP input'' @ newline)"

text \<open>
  The base run: every collaborator succeeds, the user name comes from the
  configuration, the challenge offers one device that takes codes only, every input
  line is \<open>123456\<close> and every verify-factor call answers \<open>success\<close>.
\<close>

definition protect :: Device where
  "protect = \<lparr>DeviceId = 22, DeviceType = ''OneLogin Protect''\<rparr>"

definition authenticator :: Device where
  "authenticator = \<lparr>DeviceId = 11, DeviceType = ''Google Authenticator''\<rparr>"

definition response :: "string \<Rightarrow> string \<Rightarrow> VerifyFactorResponse" where
  "response status payload = \<lparr>StatusType = status, StatusMessage = ''message'', MfaData = payload\<rparr>"

definition keys :: "string \<Rightarrow> Credentials" where
  "keys k = \<lparr>AccessKeyId = k, SecretAccessKey = ''secret'', SessionToken = ''session''\<rparr>"

definition challenge :: "Device list \<Rightarrow> string \<Rightarrow> GenerateSamlAssertionParams \<Rightarrow>
    error + GenerateSamlAssertionResponse" where
  "challenge devices token p = Inr \<lparr>Data = [\<lparr>StateToken = ''st'', Devices = devices\<rparr>]\<rparr>"

definition env0 :: env where
  "env0 =
     \<lparr>config_GetOneLoginProvider =
        (\<lambda>provider. Inr \<lparr>Region = ''us'', ClientID = ''id'', ClientSecret = ''cs'',
                           Username = ''user'', ProviderSubdomain = ''sub''\<rparr>),
      config_GetOneLoginApp = (\<lambda>app. Inr \<lparr>ID = ''app1''\<rparr>),
      NewClient = (\<lambda>region. None),
      c_GenerateTokens = (\<lambda>id secret. Inr ''tok''),
      c_GenerateSamlAssertion = challenge [authenticator],
      c_VerifyFactor = (\<lambda>n token p. Inr (response ''success'' ''assertion'')),
      fmt_Scanln = (\<lambda>n. (''123456'', None)),
      gopass_GetPasswd = Inr ''pw'',
      saml_Get = (\<lambda>d. Inr \<lparr>Provider = ''idp'', Role = ''role''\<rparr>),
      aws_AssumeSAMLRole = (\<lambda>n provider role d duration. Inr (keys ''first'')),
      aws_ErrDurationExceeded = ''DurationExceeded'',
      aws_DurationExceededMessage = ''falling back to 1 hour''\<rparr>"

text \<open>
  Four input lines for a choice between two devices: a word, a number out of range, a
  read error, then \<open>2\<close>.
\<close>

definition env_choice :: env where
  "env_choice = env0
     \<lparr>fmt_Scanln := (\<lambda>n. if n = 0 then (''x'', None)
                           else if n = 1 then (''3'', None)
                           else if n = 2 then ([], Some (Error ''unexpected newline''))
                           else (''2'', None))\<rparr>"

text \<open>The parameters and the events of the code submission (lines 144-159).\<close>

definition otp_params :: "OneLoginApp \<Rightarrow> string \<Rightarrow> string \<Rightarrow> string \<Rightarrow> VerifyFactorParams" where
  "otp_params a deviceID st otp =
     \<lparr>AppId = ID a, DeviceIdParam = deviceID, StateTokenParam = st,
      OtpToken = otp, DoNotNotify = False\<rparr>"

definition otp_events :: "string \<Rightarrow> VerifyFactorParams \<Rightarrow> event list" where
  "otp_events token p =
     [Stdout ''Please enter the OTP from your MFA device: '', Scanln,
      SpinnerStart, VerifyFactor token p, SpinnerStop]"

text \<open>The events of one role-assumption attempt (lines 170-172 and 177-179).\<close>

definition exchange_events :: "ARN \<Rightarrow> string \<Rightarrow> int \<Rightarrow> event list" where
  "exchange_events arn d duration =
     [SpinnerStart, AssumeSAMLRole (Provider arn) (Role arn) d duration, SpinnerStop]"

text \<open>
  Variations of the base run. The device is OneLogin Protect and the push is accepted
  on the second poll; the push stays pending for the first call and thirty polls; the
  first poll fails; the code is answered by a response with status \<open>rejected\<close>; the
  code is answered by an error; the challenge has no device; the assertion response has
  no data; the role allows less than the requested duration; role assumption is denied;
  the role refuses the fallback duration too.
\<close>

definition env_push :: env where
  "env_push = env0
     \<lparr>c_GenerateSamlAssertion := challenge [protect],
      c_VerifyFactor := (\<lambda>n token p. if n < 2 then Inr (response ''pending'' [])
                                     else Inr (response ''success'' ''assertion''))\<rparr>"

definition env_stalled :: env where
  "env_stalled = env0
     \<lparr>c_GenerateSamlAssertion := challenge [protect],
      c_VerifyFactor := (\<lambda>n token p. if n \<le> 30 then Inr (response ''pending'' [])
                                     else Inr (response ''success'' ''assertion''))\<rparr>"

definition env_broken :: env where
  "env_broken = env0
     \<lparr>c_GenerateSamlAssertion := challenge [protect],
      c_VerifyFactor := (\<lambda>n token p. if n = 0 then Inr (response ''pending'' [])
                                     else Inl (Error ''connection reset''))\<rparr>"

definition env_rejected :: env where
  "env_rejected = env0
     \<lparr>c_VerifyFactor := (\<lambda>n token p. Inr (response ''rejected'' ''assertion''))\<rparr>"

definition env_unauthorized :: env where
  "env_unauthorized = env0 \<lparr>c_VerifyFactor := (\<lambda>n token p. Inl (Error ''401''))\<rparr>"

definition env_nodevice :: env where
  "env_nodevice = env0 \<lparr>c_GenerateSamlAssertion := challenge []\<rparr>"

definition env_nodata :: env where
  "env_nodata = env0 \<lparr>c_GenerateSamlAssertion := (\<lambda>token p. Inr \<lparr>Data = []\<rparr>)\<rparr>"

definition env_long :: env where
  "env_long = env0
     \<lparr>aws_AssumeSAMLRole := (\<lambda>n provider role d duration.
         if n = 0 then Inl (Error ''DurationExceeded'') else Inr (keys ''second''))\<rparr>"

definition env_denied :: env where
  "env_denied = env0
     \<lparr>aws_AssumeSAMLRole := (\<lambda>n provider role d duration. Inl (Error ''AccessDenied''))\<rparr>"

definition env_short :: env where
  "env_short = env0
     \<lparr>aws_AssumeSAMLRole := (\<lambda>n provider role d duration.
         if n = 0 then Inl (Error ''DurationExceeded'') else Inl (Error ''ValidationError''))\<rparr>"

text \<open>The application and the events of lines 34-89 in the base run.\<close>

definition app1 :: OneLoginApp where
  "app1 = \<lparr>ID = ''app1''\<rparr>"

definition login_events :: "event list" where
  "login_events =
     [SpinnerStart, GenerateTokens ''id'' ''cs'', SpinnerStop,
      Stdout ''OneLogin password: '', GetPasswd, SpinnerStart,
      GenerateSamlAssertion ''tok''
        \<lparr>UsernameOrEmail = ''user'', Password = ''pw'', SamlAppId = ''app1'', Subdomain = ''sub''\<rparr>,
      SpinnerStop]"

section \<open>Traces\<close>

lemma scanned_append [simp]: "scanned (xs @ ys) = scanned xs + scanned ys"
  by (induction xs rule: scanned.induct) simp_all

lemma verify_calls_append [simp]: "verify_calls (xs @ ys) = verify_calls xs @ verify_calls ys"
  by (induction xs rule: verify_calls.induct) simp_all

lemma assume_calls_append [simp]: "assume_calls (xs @ ys) = assume_calls xs @ assume_calls ys"
  by (induction xs rule: assume_calls.induct) simp_all

lemma scanned_map_device_line [simp]: "scanned (map device_line ps) = 0"
  by (induction ps) (simp_all add: device_line_def)

lemma scanned_device_menu [simp]: "scanned (device_menu devices) = 0"
  by (simp add: device_menu_def)

lemma scanned_complaint [simp]: "scanned [complaint r] = 0"
  by (simp add: complaint_def split: option.splits)

lemma device_menu_nth:
  assumes "i < length devices"
  shows "device_menu devices ! i =
         Stdout (Sprint_int (int i + 1) @ ''. '' @ Sprint_int (DeviceId (devices ! i))
                 @ '' - '' @ DeviceType (devices ! i) @ newline)"
  using assms by (simp add: device_menu_def nth_append nth_enumerate_eq device_line_def)

section \<open>Device selection\<close>

lemma getDevice_loop_reject:
  assumes "\<not> valid_choice devices (fmt_Scanln E (scanned tr))"
  shows "getDevice_loop E devices tr =
         getDevice_loop E devices
           (tr @ device_menu devices @ [Scanln, complaint (fmt_Scanln E (scanned tr))])"
  using assms
  by (subst getDevice_loop.simps)
     (auto simp: valid_choice_def complaint_def Let_def split: option.splits)

lemma getDevice_loop_accept:
  assumes "valid_choice devices (fmt_Scanln E (scanned tr))"
  shows "getDevice_loop E devices tr =
         Some (tr @ device_menu devices @ [Scanln], the (Atoi (fst (fmt_Scanln E (scanned tr)))))"
  using assms
  by (subst getDevice_loop.simps)
     (auto simp: valid_choice_def Let_def split: option.splits)

lemma getDevice_loop_rounds:
  assumes "\<forall>i<m. \<not> valid_choice devices (fmt_Scanln E (scanned tr + i))"
      and "valid_choice devices (fmt_Scanln E (scanned tr + m))"
  shows "getDevice_loop E devices tr =
         Some (tr @ reprompts E devices (scanned tr) m @ device_menu devices @ [Scanln],
               the (Atoi (fst (fmt_Scanln E (scanned tr + m)))))"
  using assms
proof (induction m arbitrary: tr)
  case 0
  then show ?case by (simp add: getDevice_loop_accept)
next
  case (Suc m)
  let ?tr = "tr @ device_menu devices @ [Scanln, complaint (fmt_Scanln E (scanned tr))]"
  have rej: "\<not> valid_choice devices (fmt_Scanln E (scanned tr))"
    using Suc.prems(1) by (metis add.right_neutral zero_less_Suc)
  have sc: "scanned ?tr = Suc (scanned tr)" by simp
  have a: "\<forall>i<m. \<not> valid_choice devices (fmt_Scanln E (scanned ?tr + i))"
    using Suc.prems(1) by (simp add: sc) (metis Suc_less_eq add_Suc_right)
  have b: "valid_choice devices (fmt_Scanln E (scanned ?tr + m))"
    using Suc.prems(2) by (simp add: sc)
  show ?case
    using Suc.IH [OF a b] rej by (simp add: getDevice_loop_reject sc)
qed

text \<open>The loop is left only by an input that passes the checks.\<close>

lemma getDevice_loop_Some_valid:
  assumes "getDevice_loop E devices tr = Some y"
  shows "\<exists>m. valid_choice devices (fmt_Scanln E (scanned tr + m))"
proof (rule getDevice_loop.raw_induct
        [where P = "\<lambda>E devices tr y. \<exists>m. valid_choice devices (fmt_Scanln E (scanned tr + m))",
         OF _ assms], goal_cases)
  case (1 loop E devices tr y)
  show ?case
  proof (cases "valid_choice devices (fmt_Scanln E (scanned tr))")
    case True
    then show ?thesis by (metis add.right_neutral)
  next
    case False
    define tr' where
      "tr' = tr @ device_menu devices @ [Scanln, complaint (fmt_Scanln E (scanned tr))]"
    have "loop E devices tr' = Some y"
      using 1(2) False unfolding tr'_def
      by (auto simp: valid_choice_def complaint_def Let_def split: option.splits if_splits)
    moreover have "scanned tr' = Suc (scanned tr)" by (simp add: tr'_def)
    ultimately obtain m where "valid_choice devices (fmt_Scanln E (Suc (scanned tr) + m))"
      using 1(1) [of E devices tr' y] by auto
    then show ?thesis by (metis add_Suc_shift)
  qed
qed

lemma getDevice_loop_None:
  assumes "\<forall>i. \<not> valid_choice devices (fmt_Scanln E (scanned tr + i))"
  shows "getDevice_loop E devices tr = None"
  using assms getDevice_loop_Some_valid by (metis not_Some_eq)

lemma valid_choiceD:
  assumes "valid_choice devices r"
  shows "\<exists>k. Atoi (fst r) = Some (int k) \<and> 1 \<le> k \<and> k \<le> length devices \<and> snd r = None"
proof -
  from assms obtain z where z: "Atoi (fst r) = Some z" "1 \<le> z" "z \<le> int (length devices)"
    and r: "snd r = None"
    by (auto simp: valid_choice_def split: option.splits)
  then have "Atoi (fst r) = Some (int (nat z)) \<and> 1 \<le> nat z \<and> nat z \<le> length devices"
    by (simp add: nat_le_iff)
  with r show ?thesis by blast
qed

section \<open>The push phase\<close>

lemma polls_Suc: "polls token p (Suc k) = [Sleep MFAInterval, VerifyFactor token p] @ polls token p k"
  by (simp add: polls_def)

lemma polls_Suc_end: "polls token p (Suc k) = polls token p k @ [Sleep MFAInterval, VerifyFactor token p]"
  unfolding polls_def by (induction k) simp_all

lemma verify_calls_polls [simp]: "verify_calls (polls token p k) = replicate k p"
  unfolding polls_def by (induction k) simp_all

lemma scanned_polls [simp]: "scanned (polls token p k) = 0"
  unfolding polls_def by (induction k) simp_all

lemma assume_calls_polls [simp]: "assume_calls (polls token p k) = []"
  unfolding polls_def by (induction k) simp_all

lemma Get_poll_pending:
  assumes "StatusType r0 = ''pending''"
      and "int j \<le> timeout"
      and "\<forall>i<j. \<exists>r. c_VerifyFactor E (length (verify_calls tr) + i) token p = Inr r
                      \<and> StatusType r = ''pending''"
  shows "\<exists>r'. StatusType r' = ''pending''
             \<and> Get_poll E token p tr r0 timeout =
               Get_poll E token p (tr @ polls token p j) r' (timeout - int j)"
  using assms
proof (induction j arbitrary: tr r0 timeout)
  case 0
  then show ?case by (auto simp: polls_def)
next
  case (Suc j)
  let ?tr = "tr @ [Sleep MFAInterval, VerifyFactor token p]"
  from Suc.prems(3) obtain r1 where
    r1: "c_VerifyFactor E (length (verify_calls tr)) token p = Inr r1" "StatusType r1 = ''pending''"
    by (metis add.right_neutral zero_less_Suc)
  have step: "Get_poll E token p tr r0 timeout = Get_poll E token p ?tr r1 (timeout - 1)"
    using Suc.prems(1,2) r1 by (subst Get_poll.simps) (simp add: MFAInterval_def)
  have a: "int j \<le> timeout - 1" using Suc.prems(2) by simp
  have b: "\<forall>i<j. \<exists>r. c_VerifyFactor E (length (verify_calls ?tr) + i) token p = Inr r
                      \<and> StatusType r = ''pending''"
    using Suc.prems(3) by simp (metis Suc_less_eq add_Suc_right)
  from Suc.IH [OF r1(2) a b] obtain r' where
    "StatusType r' = ''pending''"
    "Get_poll E token p ?tr r1 (timeout - 1) =
       Get_poll E token p (?tr @ polls token p j) r' (timeout - 1 - int j)"
    by blast
  moreover have "timeout - 1 - int j = timeout - int (Suc j)" by simp
  ultimately show ?case using step by (auto simp: polls_Suc)
qed

text \<open>The three ways out of the poll loop after \<open>j\<close> pending polls.\<close>

lemma Get_poll_settled:
  assumes "StatusType r0 = ''pending''"
      and "int j < timeout"
      and "\<forall>i<j. \<exists>r. c_VerifyFactor E (length (verify_calls tr) + i) token p = Inr r
                      \<and> StatusType r = ''pending''"
      and "c_VerifyFactor E (length (verify_calls tr) + j) token p = Inr r"
      and "StatusType r \<noteq> ''pending''"
  shows "Get_poll E token p tr r0 timeout = (tr @ polls token p (Suc j), Inr r)"
proof -
  from Get_poll_pending [OF assms(1) _ assms(3), of timeout] assms(2)
  obtain r' where r': "StatusType r' = ''pending''"
    "Get_poll E token p tr r0 timeout = Get_poll E token p (tr @ polls token p j) r' (timeout - int j)"
    by auto
  have "Get_poll E token p (tr @ polls token p j) r' (timeout - int j) =
        Get_poll E token p (tr @ polls token p (Suc j)) r (timeout - int j - MFAInterval)"
    using r'(1) assms(2,4) by (subst Get_poll.simps) (simp add: polls_Suc_end)
  also have "\<dots> = (tr @ polls token p (Suc j), Inr r)"
    using assms(5) by (subst Get_poll.simps) simp
  finally show ?thesis using r'(2) by simp
qed

lemma Get_poll_error:
  assumes "StatusType r0 = ''pending''"
      and "int j < timeout"
      and "\<forall>i<j. \<exists>r. c_VerifyFactor E (length (verify_calls tr) + i) token p = Inr r
                      \<and> StatusType r = ''pending''"
      and "c_VerifyFactor E (length (verify_calls tr) + j) token p = Inl e"
  shows "Get_poll E token p tr r0 timeout = (tr @ polls token p (Suc j) @ [SpinnerStop], Inl e)"
proof -
  from Get_poll_pending [OF assms(1) _ assms(3), of timeout] assms(2)
  obtain r' where r': "StatusType r' = ''pending''"
    "Get_poll E token p tr r0 timeout = Get_poll E token p (tr @ polls token p j) r' (timeout - int j)"
    by auto
  have "Get_poll E token p (tr @ polls token p j) r' (timeout - int j) =
        (tr @ polls token p (Suc j) @ [SpinnerStop], Inl e)"
    using r'(1) assms(2,4) by (subst Get_poll.simps) (simp add: polls_Suc_end)
  then show ?thesis using r'(2) by simp
qed

lemma Get_poll_timeout:
  assumes "StatusType r0 = ''pending''"
      and "int j = timeout"
      and "\<forall>i<j. \<exists>r. c_VerifyFactor E (length (verify_calls tr) + i) token p = Inr r
                      \<and> StatusType r = ''pending''"
  shows "\<exists>r'. StatusType r' = ''pending''
           \<and> Get_poll E token p tr r0 timeout = (tr @ polls token p j, Inr r')"
proof -
  from Get_poll_pending [OF assms(1) _ assms(3), of timeout] assms(2)
  obtain r' where r': "StatusType r' = ''pending''"
    "Get_poll E token p tr r0 timeout = Get_poll E token p (tr @ polls token p j) r' (timeout - int j)"
    by auto
  have "Get_poll E token p (tr @ polls token p j) r' (timeout - int j) = (tr @ polls token p j, Inr r')"
    using assms(2) by (subst Get_poll.simps) simp
  then show ?thesis using r' by auto
qed


lemma pending_replyD:
  "pending_reply x \<Longrightarrow> \<exists>r. x = Inr r \<and> StatusType r = ''pending''"
  by (cases x) (simp_all add: pending_reply_def)

lemma polls_shift:
  assumes "\<forall>i<Suc j. pending_reply (c_VerifyFactor E (n + i) token (push_params a deviceID st (0 < i)))"
  shows "\<forall>i<j. \<exists>r. c_VerifyFactor E (Suc n + i) token (push_params a deviceID st True) = Inr r
                 \<and> StatusType r = ''pending''"
proof (intro allI impI)
  fix i assume "i < j"
  then have "pending_reply (c_VerifyFactor E (n + Suc i) token (push_params a deviceID st (0 < Suc i)))"
    using assms by (metis Suc_less_eq less_Suc_eq)
  then show "\<exists>r. c_VerifyFactor E (Suc n + i) token (push_params a deviceID st True) = Inr r
                 \<and> StatusType r = ''pending''"
    using pending_replyD by fastforce
qed

lemma Get_push_unfold:
  assumes "c_VerifyFactor E (length (verify_calls tr)) token (push_params a deviceID st False) = Inr r0"
  shows "Get_push E a token deviceID st tr =
     (case Get_poll E token (push_params a deviceID st True)
             (tr @ push_events a token deviceID st (StatusMessage r0 @ newline) 0) r0 MFAPushTimeout of
        (tr3, Inl err) \<Rightarrow> (tr3, Inl err)
      | (tr3, Inr rMfa') \<Rightarrow>
          if StatusType rMfa' = ''pending''
          then (tr3 @ [SpinnerStop, timeout_notice], Inr (rMfa', False))
          else (tr3 @ [SpinnerStop], Inr (rMfa', True)))"
  using assms
  unfolding Get_push_def push_params_def push_events_def polls_def timeout_notice_def
  by simp

lemma Get_push_first_error:
  assumes "c_VerifyFactor E (length (verify_calls tr)) token (push_params a deviceID st False) = Inl e"
  shows "Get_push E a token deviceID st tr =
     (tr @ [SpinnerStart, VerifyFactor token (push_params a deviceID st False), SpinnerStop], Inl e)"
  using assms by (simp add: Get_push_def push_params_def)

lemma verify_calls_push_events [simp]:
  "verify_calls (push_events a token deviceID st msg k) =
     push_params a deviceID st False # replicate k (push_params a deviceID st True)"
  by (simp add: push_events_def)

lemma scanned_push_events [simp]: "scanned (push_events a token deviceID st msg k) = 0"
  by (simp add: push_events_def)

lemma assume_calls_push_events [simp]: "assume_calls (push_events a token deviceID st msg k) = []"
  by (simp add: push_events_def)

lemma push_events_polls:
  "push_events a token deviceID st msg 0 @ polls token (push_params a deviceID st True) k =
   push_events a token deviceID st msg k"
  by (simp add: push_events_def polls_def)

lemma Get_push_settled:
  assumes "k \<le> 30"
      and "\<forall>i<k. pending_reply (c_VerifyFactor E (length (verify_calls tr) + i) token
                                  (push_params a deviceID st (0 < i)))"
      and "c_VerifyFactor E (length (verify_calls tr) + k) token (push_params a deviceID st (0 < k)) = Inr r"
      and "StatusType r \<noteq> ''pending''"
  shows "\<exists>msg. Get_push E a token deviceID st tr =
           (tr @ push_events a token deviceID st msg k @ [SpinnerStop], Inr (r, True))"
proof (cases k)
  case 0
  then have "c_VerifyFactor E (length (verify_calls tr)) token (push_params a deviceID st False) = Inr r"
    using assms(3) by simp
  from Get_push_unfold [OF this] assms(4) 0 show ?thesis
    by (subst (asm) Get_poll.simps) auto
next
  case (Suc j)
  let ?n = "length (verify_calls tr)"
  have "pending_reply (c_VerifyFactor E ?n token (push_params a deviceID st False))"
    using assms(2) [rule_format, of 0] Suc by simp
  then obtain r0 where
    r0: "c_VerifyFactor E ?n token (push_params a deviceID st False) = Inr r0"
        "StatusType r0 = ''pending''"
    using pending_replyD by blast
  let ?tr = "tr @ push_events a token deviceID st (StatusMessage r0 @ newline) 0"
  have n: "length (verify_calls ?tr) = Suc ?n" by simp
  have a: "\<forall>i<j. \<exists>r. c_VerifyFactor E (length (verify_calls ?tr) + i) token
                        (push_params a deviceID st True) = Inr r \<and> StatusType r = ''pending''"
    unfolding n using polls_shift [of j E ?n token a deviceID st] assms(2) Suc by simp
  have b: "c_VerifyFactor E (length (verify_calls ?tr) + j) token (push_params a deviceID st True) = Inr r"
    unfolding n using assms(3) Suc by simp
  have "int j < MFAPushTimeout" using assms(1) Suc by (simp add: MFAPushTimeout_def)
  from Get_poll_settled [OF r0(2) this a b assms(4)]
  have "Get_poll E token (push_params a deviceID st True) ?tr r0 MFAPushTimeout =
          (tr @ push_events a token deviceID st (StatusMessage r0 @ newline) k, Inr r)"
    using Suc by (simp add: push_events_polls)
  with Get_push_unfold [OF r0(1)] assms(4) show ?thesis by auto
qed

lemma Get_push_error:
  assumes "k \<le> 30"
      and "\<forall>i<k. pending_reply (c_VerifyFactor E (length (verify_calls tr) + i) token
                                  (push_params a deviceID st (0 < i)))"
      and "c_VerifyFactor E (length (verify_calls tr) + k) token (push_params a deviceID st (0 < k)) = Inl e"
  shows "\<exists>tr'. Get_push E a token deviceID st tr = (tr', Inl e)
              \<and> scanned tr' = scanned tr \<and> assume_calls tr' = assume_calls tr
              \<and> verify_calls tr' = verify_calls tr @ push_params a deviceID st False
                                     # replicate k (push_params a deviceID st True)"
proof (cases k)
  case 0
  then have "c_VerifyFactor E (length (verify_calls tr)) token (push_params a deviceID st False) = Inl e"
    using assms(3) by simp
  from Get_push_first_error [OF this] 0 show ?thesis by simp
next
  case (Suc j)
  let ?n = "length (verify_calls tr)"
  have "pending_reply (c_VerifyFactor E ?n token (push_params a deviceID st False))"
    using assms(2) [rule_format, of 0] Suc by simp
  then obtain r0 where
    r0: "c_VerifyFactor E ?n token (push_params a deviceID st False) = Inr r0"
        "StatusType r0 = ''pending''"
    using pending_replyD by blast
  let ?tr = "tr @ push_events a token deviceID st (StatusMessage r0 @ newline) 0"
  have n: "length (verify_calls ?tr) = Suc ?n" by simp
  have a: "\<forall>i<j. \<exists>r. c_VerifyFactor E (length (verify_calls ?tr) + i) token
                        (push_params a deviceID st True) = Inr r \<and> StatusType r = ''pending''"
    unfolding n using polls_shift [of j E ?n token a deviceID st] assms(2) Suc by simp
  have b: "c_VerifyFactor E (length (verify_calls ?tr) + j) token (push_params a deviceID st True) = Inl e"
    unfolding n using assms(3) Suc by simp
  have "int j < MFAPushTimeout" using assms(1) Suc by (simp add: MFAPushTimeout_def)
  from Get_poll_error [OF r0(2) this a b]
  have "Get_poll E token (push_params a deviceID st True) ?tr r0 MFAPushTimeout =
          (?tr @ polls token (push_params a deviceID st True) k @ [SpinnerStop], Inl e)"
    using Suc by simp
  with Get_push_unfold [OF r0(1)] show ?thesis by simp
qed

lemma Get_push_timeout:
  assumes "\<forall>i\<le>30. pending_reply (c_VerifyFactor E (length (verify_calls tr) + i) token
                                  (push_params a deviceID st (0 < i)))"
  shows "\<exists>msg r. StatusType r = ''pending'' \<and> Get_push E a token deviceID st tr =
           (tr @ push_events a token deviceID st msg 30 @ [SpinnerStop, timeout_notice], Inr (r, False))"
proof -
  let ?n = "length (verify_calls tr)"
  have "pending_reply (c_VerifyFactor E ?n token (push_params a deviceID st False))"
    using assms [rule_format, of 0] by simp
  then obtain r0 where
    r0: "c_VerifyFactor E ?n token (push_params a deviceID st False) = Inr r0"
        "StatusType r0 = ''pending''"
    using pending_replyD by blast
  let ?tr = "tr @ push_events a token deviceID st (StatusMessage r0 @ newline) 0"
  have n: "length (verify_calls ?tr) = Suc ?n" by simp
  have "\<forall>i<Suc 30. pending_reply (c_VerifyFactor E (?n + i) token (push_params a deviceID st (0 < i)))"
    using assms by (simp add: less_Suc_eq_le)
  then have a: "\<forall>i<30. \<exists>r. c_VerifyFactor E (length (verify_calls ?tr) + i) token
                        (push_params a deviceID st True) = Inr r \<and> StatusType r = ''pending''"
    unfolding n by (rule polls_shift)
  have "int 30 = MFAPushTimeout" by (simp add: MFAPushTimeout_def)
  from Get_poll_timeout [OF r0(2) this a] obtain r' where
    "StatusType r' = ''pending''"
    "Get_poll E token (push_params a deviceID st True) ?tr r0 MFAPushTimeout =
          (tr @ push_events a token deviceID st (StatusMessage r0 @ newline) 30, Inr r')"
    by (auto simp: push_events_polls)
  with Get_push_unfold [OF r0(1)] show ?thesis by auto
qed

section \<open>The flow after device selection\<close>

lemma Get_challenge_mfa:
  assumes "getDevice E devices tr0 = Some (tr, deviceID, deviceType, err)"
  shows "Get_challenge E a token st devices duration tr0 =
     (case Get_mfa E a token deviceID deviceType st tr of
        (tr2, Inl e) \<Rightarrow> Some (tr2, Returned (Inl e))
      | (tr2, Inr rMfa) \<Rightarrow>
          (case Get_exchange E rMfa duration tr2 of (tr3, res) \<Rightarrow> Some (tr3, Returned res)))"
  using assms by (simp add: Get_challenge_def)

lemma Get_otp_eq:
  "Get_otp E a token deviceID st tr =
     (tr @ otp_events token (otp_params a deviceID st (fst (fmt_Scanln E (scanned tr)))),
      case c_VerifyFactor E (length (verify_calls tr)) token
             (otp_params a deviceID st (fst (fmt_Scanln E (scanned tr)))) of
        Inl e \<Rightarrow> Inl (Error (''verifying factor: '' @ err_Error e))
      | Inr r \<Rightarrow> Inr r)"
  by (simp add: Get_otp_def otp_events_def otp_params_def Let_def split: sum.splits)

lemma Get_exchange_eq:
  assumes "saml_Get E (MfaData rMfa) = Inr arn"
  shows "Get_exchange E rMfa duration tr =
     (case aws_AssumeSAMLRole E (length (assume_calls tr)) (Provider arn) (Role arn) (MfaData rMfa) duration of
        Inr creds \<Rightarrow> (tr @ exchange_events arn (MfaData rMfa) duration, Inr creds)
      | Inl e \<Rightarrow>
          if err_Error e = aws_ErrDurationExceeded E
          then (tr @ exchange_events arn (MfaData rMfa) duration
                   @ [LogPrintln (aws_DurationExceededMessage E)]
                   @ exchange_events arn (MfaData rMfa) 3600,
                aws_AssumeSAMLRole E (length (assume_calls tr) + 1) (Provider arn) (Role arn) (MfaData rMfa) 3600)
          else (tr @ exchange_events arn (MfaData rMfa) duration, Inl e))"
  using assms
  by (simp add: Get_exchange_def exchange_events_def Let_def split: sum.splits)

lemma Get_exchange_quiet:
  assumes "Get_exchange E rMfa duration tr = (tr', res)"
  shows "verify_calls tr' = verify_calls tr \<and> scanned tr' = scanned tr"
  using assms
  by (auto simp: Get_exchange_def Let_def split: sum.splits if_splits)

lemma Get_challenge_no_panic: "Get_challenge E a token st devices duration tr \<noteq> Some (tr', Panicked)"
  by (auto simp: Get_challenge_def split: option.splits prod.splits sum.splits)

text \<open>Unfolding the definitions on the runs of the previous section.\<close>

lemmas atoi_eval = Atoi_def is_digit_def digits_value_def

lemmas world_defs =
  env0_def challenge_def response_def keys_def authenticator_def protect_def app1_def
  login_events_def newline_def

lemmas Get_defs =
  Get_def Get_login_def Get_challenge_def getDevice_def Get_mfa_def Get_otp_def
  Get_exchange_def Get_push_def MFADeviceOneLoginProtect_def Sprint_int_def decimal.simps

section \<open>The claims on device selection\<close>

text \<open>
  C9. A device set of exactly one device: \<open>getDevice\<close> returns the id (printed with
  \<open>%v\<close>) and the type of that device and no error, and the trace is the one it was
  given: nothing is printed and nothing is read.
\<close>

theorem getDevice_single:
  "getDevice E [d] tr = Some (tr, Sprint_int (DeviceId d), DeviceType d, None)"
  by (simp add: getDevice_def)

text \<open>
  C8. A device set of two or more devices. Every round prints the devices numbered from
  1 and the prompt. When the first \<open>m\<close> input lines fail a check (a read error, not an
  integer, or out of range) and the next one passes, \<open>getDevice\<close> goes through \<open>m\<close>
  rounds that end in a complaint and one more round, and returns, without error, the id
  and type of the device at the chosen 1-based position. When no input line ever passes,
  it never returns.
\<close>

theorem getDevice_selects:
  assumes "2 \<le> length devices"
  shows "(\<forall>i<length devices. device_menu devices ! i =
            Stdout (Sprint_int (int i + 1) @ ''. '' @ Sprint_int (DeviceId (devices ! i))
                    @ '' - '' @ DeviceType (devices ! i) @ newline))
       \<and> ((\<forall>i<m. \<not> valid_choice devices (fmt_Scanln E (scanned tr + i)))
            \<and> valid_choice devices (fmt_Scanln E (scanned tr + m))
          \<longrightarrow> (\<exists>k. Atoi (fst (fmt_Scanln E (scanned tr + m))) = Some (int k)
                 \<and> 1 \<le> k \<and> k \<le> length devices
                 \<and> getDevice E devices tr =
                     Some (tr @ reprompts E devices (scanned tr) m @ device_menu devices @ [Scanln],
                           Sprint_int (DeviceId (devices ! (k - 1))),
                           DeviceType (devices ! (k - 1)), None)))
       \<and> ((\<forall>i. \<not> valid_choice devices (fmt_Scanln E (scanned tr + i)))
          \<longrightarrow> getDevice E devices tr = None)"
proof (intro conjI impI allI)
  fix i assume "i < length devices"
  then show "device_menu devices ! i =
            Stdout (Sprint_int (int i + 1) @ ''. '' @ Sprint_int (DeviceId (devices ! i))
                    @ '' - '' @ DeviceType (devices ! i) @ newline)"
    by (rule device_menu_nth)
next
  assume h: "(\<forall>i<m. \<not> valid_choice devices (fmt_Scanln E (scanned tr + i)))
            \<and> valid_choice devices (fmt_Scanln E (scanned tr + m))"
  then obtain k where k: "Atoi (fst (fmt_Scanln E (scanned tr + m))) = Some (int k)"
      "1 \<le> k" "k \<le> length devices"
    using valid_choiceD by blast
  have "getDevice_loop E devices tr =
         Some (tr @ reprompts E devices (scanned tr) m @ device_menu devices @ [Scanln], int k)"
    using getDevice_loop_rounds [of m devices E tr] h k(1) by simp
  moreover have "nat (int k - 1) = k - 1" by simp
  moreover have "length devices \<noteq> 0" "length devices \<noteq> 1" using assms by auto
  ultimately have "getDevice E devices tr =
      Some (tr @ reprompts E devices (scanned tr) m @ device_menu devices @ [Scanln],
            Sprint_int (DeviceId (devices ! (k - 1))), DeviceType (devices ! (k - 1)), None)"
    by (simp add: getDevice_def)
  with k show "\<exists>k. Atoi (fst (fmt_Scanln E (scanned tr + m))) = Some (int k)
                 \<and> 1 \<le> k \<and> k \<le> length devices
                 \<and> getDevice E devices tr =
                     Some (tr @ reprompts E devices (scanned tr) m @ device_menu devices @ [Scanln],
                           Sprint_int (DeviceId (devices ! (k - 1))),
                           DeviceType (devices ! (k - 1)), None)"
    by blast
next
  assume "\<forall>i. \<not> valid_choice devices (fmt_Scanln E (scanned tr + i))"
  then have "getDevice_loop E devices tr = None" by (rule getDevice_loop_None)
  moreover have "length devices \<noteq> 0" "length devices \<noteq> 1" using assms by auto
  ultimately show "getDevice E devices tr = None"
    by (simp add: getDevice_def)
qed

theorem getDevice_selects_witness:
  "2 \<le> length [authenticator, protect]
   \<and> \<not> valid_choice [authenticator, protect] (fmt_Scanln env_choice (scanned [] + 0))
   \<and> \<not> valid_choice [authenticator, protect] (fmt_Scanln env_choice (scanned [] + 1))
   \<and> \<not> valid_choice [authenticator, protect] (fmt_Scanln env_choice (scanned [] + 2))
   \<and> valid_choice [authenticator, protect] (fmt_Scanln env_choice (scanned [] + 3))
   \<and> getDevice env_choice [authenticator, protect] [] =
       Some (reprompts env_choice [authenticator, protect] 0 3
               @ device_menu [authenticator, protect] @ [Scanln],
             ''22'', ''OneLogin Protect'', None)
   \<and> (\<forall>i. \<not> valid_choice [authenticator, protect] (fmt_Scanln env0 (scanned [] + i)))
   \<and> getDevice env0 [authenticator, protect] [] = None"
proof -
  have len: "2 \<le> length [authenticator, protect]" by simp
  have bad: "\<forall>i<3. \<not> valid_choice [authenticator, protect] (fmt_Scanln env_choice (scanned [] + i))"
    by (simp add: numeral_3_eq_3 All_less_Suc valid_choice_def env_choice_def atoi_eval)
  have good: "valid_choice [authenticator, protect] (fmt_Scanln env_choice (scanned [] + 3))"
    by (simp add: valid_choice_def env_choice_def atoi_eval)
  have two: "Atoi (fst (fmt_Scanln env_choice (scanned [] + 3))) = Some (int 2)"
    by (simp add: env_choice_def atoi_eval)
  have never: "\<forall>i. \<not> valid_choice [authenticator, protect] (fmt_Scanln env0 (scanned [] + i))"
    by (simp add: valid_choice_def env0_def atoi_eval)
  from getDevice_selects [OF len, of 3 env_choice "[]"] bad good two
  have "getDevice env_choice [authenticator, protect] [] =
       Some (reprompts env_choice [authenticator, protect] 0 3
               @ device_menu [authenticator, protect] @ [Scanln],
             Sprint_int (DeviceId ([authenticator, protect] ! (2 - 1))),
             DeviceType ([authenticator, protect] ! (2 - 1)), None)"
    by auto
  moreover have "Sprint_int (DeviceId ([authenticator, protect] ! (2 - 1))) = ''22''"
    by (simp add: protect_def Sprint_int_def decimal.simps)
  moreover have "DeviceType ([authenticator, protect] ! (2 - 1)) = ''OneLogin Protect''"
    by (simp add: protect_def)
  moreover from getDevice_selects [OF len, of 0 env0 "[]"] never
  have "getDevice env0 [authenticator, protect] [] = None" by blast
  moreover have
    "\<not> valid_choice [authenticator, protect] (fmt_Scanln env_choice (scanned [] + 0))"
    "\<not> valid_choice [authenticator, protect] (fmt_Scanln env_choice (scanned [] + 1))"
    "\<not> valid_choice [authenticator, protect] (fmt_Scanln env_choice (scanned [] + 2))"
    using bad by simp_all
  ultimately show ?thesis using len good never by simp
qed

section \<open>The claims on the flow\<close>

text \<open>
  C1. The claim is that an empty device set fails the flow with the error of
  \<open>getDevice\<close>. In the run where the challenge has no device, \<open>getDevice\<close> does return
  that error, but \<open>Get\<close> goes on with the empty device id: it asks for a code, calls
  verify-factor with it, exchanges the assertion and returns credentials.
\<close>

theorem Get_no_device_proceeds:
  "getDevice env_nodevice [] login_events =
     Some (login_events, [], [], Some (Error ''No MFA device returned by Onelogin''))
   \<and> Get env_nodevice ''app'' ''provider'' 7200 =
     Some (login_events
             @ otp_events ''tok'' (otp_params app1 [] ''st'' ''123456'')
             @ exchange_events \<lparr>Provider = ''idp'', Role = ''role''\<rparr> ''assertion'' 7200,
           Returned (Inr (keys ''first'')))"
  by (simp add: Get_defs env_nodevice_def world_defs otp_events_def otp_params_def
        exchange_events_def)

text \<open>
  C10. After a successful assertion request \<open>Get\<close> reads element 0 of \<open>Data\<close>: with an
  empty \<open>Data\<close> it panics there, and with a non-empty \<open>Data\<close> it goes on with the state
  token and the devices of the first element and does not panic.
\<close>

theorem Get_indexes_first_Data:
  assumes "Get_login E app provider = (tr, Inr (a, token, rSaml))"
  shows "(Data rSaml = [] \<longrightarrow> Get E app provider duration = Some (tr, Panicked))
       \<and> (Data rSaml \<noteq> [] \<longrightarrow>
            Get E app provider duration =
              Get_challenge E a token (StateToken (Data rSaml ! 0)) (Devices (Data rSaml ! 0)) duration tr
            \<and> (\<forall>tr'. Get E app provider duration \<noteq> Some (tr', Panicked)))"
  using assms Get_challenge_no_panic
  by (cases "Data rSaml") (simp_all add: Get_def)

theorem Get_indexes_first_Data_witness:
  "Get_login env_nodata ''app'' ''provider'' = (login_events, Inr (app1, ''tok'', \<lparr>Data = []\<rparr>))
   \<and> Get env_nodata ''app'' ''provider'' 7200 = Some (login_events, Panicked)
   \<and> Get_login env0 ''app'' ''provider'' =
       (login_events, Inr (app1, ''tok'', \<lparr>Data = [\<lparr>StateToken = ''st'', Devices = [authenticator]\<rparr>]\<rparr>))
   \<and> Get env0 ''app'' ''provider'' 7200 =
       Get_challenge env0 app1 ''tok'' ''st'' [authenticator] 7200 login_events"
proof -
  have h: "Get_login env_nodata ''app'' ''provider'' = (login_events, Inr (app1, ''tok'', \<lparr>Data = []\<rparr>))"
    by (simp add: Get_login_def env_nodata_def world_defs)
  have h': "Get_login env0 ''app'' ''provider'' =
       (login_events, Inr (app1, ''tok'', \<lparr>Data = [\<lparr>StateToken = ''st'', Devices = [authenticator]\<rparr>]\<rparr>))"
    by (simp add: Get_login_def world_defs)
  from Get_indexes_first_Data [OF h, of 7200] Get_indexes_first_Data [OF h', of 7200] h h'
  show ?thesis by simp
qed

section \<open>The claims on MFA verification\<close>

text \<open>
  C3. The selected device is OneLogin Protect. When the first call and the polls before
  poll \<open>k\<close> answer \<open>pending\<close>, poll \<open>k\<close> answers with another status (\<open>Get\<close> tells
  \<open>pending\<close> from every other status and nothing else, so this covers \<open>accepted\<close>), and
  \<open>k\<close> intervals are less than the budget, then the push phase makes exactly \<open>k + 1\<close>
  verify-factor calls: one with \<open>DoNotNotify\<close> false, then \<open>k\<close> with \<open>DoNotNotify\<close>
  true, each after a sleep of one interval. The response of the last call is the result
  of MFA verification and the one whose payload \<open>Get\<close> hands to the exchange.
\<close>

theorem push_accepted:
  assumes "getDevice E devices tr0 = Some (tr, deviceID, MFADeviceOneLoginProtect, err)"
      and "int k * MFAInterval < MFAPushTimeout"
      and "\<forall>i<k. pending_reply (c_VerifyFactor E (length (verify_calls tr) + i) token
                                  (push_params a deviceID st (0 < i)))"
      and "c_VerifyFactor E (length (verify_calls tr) + k) token (push_params a deviceID st (0 < k)) = Inr r"
      and "StatusType r \<noteq> ''pending''"
  shows "\<exists>msg. Get_mfa E a token deviceID MFADeviceOneLoginProtect st tr =
                 (tr @ push_events a token deviceID st msg k @ [SpinnerStop], Inr r)
             \<and> verify_calls (push_events a token deviceID st msg k @ [SpinnerStop]) =
                 push_params a deviceID st False # replicate k (push_params a deviceID st True)
             \<and> Get_challenge E a token st devices duration tr0 =
                 (case Get_exchange E r duration (tr @ push_events a token deviceID st msg k @ [SpinnerStop]) of
                    (tr3, res) \<Rightarrow> Some (tr3, Returned res))"
proof -
  have "k \<le> 30" using assms(2) by (simp add: MFAInterval_def MFAPushTimeout_def)
  from Get_push_settled [OF this assms(3,4,5)] obtain msg where
    "Get_push E a token deviceID st tr =
       (tr @ push_events a token deviceID st msg k @ [SpinnerStop], Inr (r, True))" by blast
  then have m: "Get_mfa E a token deviceID MFADeviceOneLoginProtect st tr =
                 (tr @ push_events a token deviceID st msg k @ [SpinnerStop], Inr r)"
    by (simp add: Get_mfa_def)
  with Get_challenge_mfa [OF assms(1), of a token st duration] show ?thesis by auto
qed

theorem push_accepted_witness:
  "getDevice env_push [protect] login_events =
     Some (login_events, ''22'', MFADeviceOneLoginProtect, None)
   \<and> int 2 * MFAInterval < MFAPushTimeout
   \<and> pending_reply (c_VerifyFactor env_push (length (verify_calls login_events) + 0) ''tok''
                       (push_params app1 ''22'' ''st'' False))
   \<and> pending_reply (c_VerifyFactor env_push (length (verify_calls login_events) + 1) ''tok''
                       (push_params app1 ''22'' ''st'' True))
   \<and> c_VerifyFactor env_push (length (verify_calls login_events) + 2) ''tok''
        (push_params app1 ''22'' ''st'' (0 < (2::nat))) = Inr (response ''success'' ''assertion'')
   \<and> StatusType (response ''success'' ''assertion'') \<noteq> ''pending''
   \<and> (\<exists>msg. Get_mfa env_push app1 ''tok'' ''22'' MFADeviceOneLoginProtect ''st'' login_events =
                 (login_events @ push_events app1 ''tok'' ''22'' ''st'' msg 2 @ [SpinnerStop],
                  Inr (response ''success'' ''assertion''))
             \<and> verify_calls (push_events app1 ''tok'' ''22'' ''st'' msg 2 @ [SpinnerStop]) =
                 push_params app1 ''22'' ''st'' False # replicate 2 (push_params app1 ''22'' ''st'' True)
             \<and> Get_challenge env_push app1 ''tok'' ''st'' [protect] 7200 login_events =
                 (case Get_exchange env_push (response ''success'' ''assertion'') 7200
                         (login_events @ push_events app1 ''tok'' ''22'' ''st'' msg 2 @ [SpinnerStop]) of
                    (tr3, res) \<Rightarrow> Some (tr3, Returned res)))"
proof -
  have h1: "getDevice env_push [protect] login_events =
     Some (login_events, ''22'', MFADeviceOneLoginProtect, None)"
    by (simp add: getDevice_def protect_def MFADeviceOneLoginProtect_def Sprint_int_def decimal.simps)
  have h2: "int 2 * MFAInterval < MFAPushTimeout"
    by (simp add: MFAInterval_def MFAPushTimeout_def)
  have h3: "\<forall>i<2. pending_reply (c_VerifyFactor env_push (length (verify_calls login_events) + i) ''tok''
                             (push_params app1 ''22'' ''st'' (0 < i)))"
    by (simp add: env_push_def world_defs pending_reply_def)
  have h4: "c_VerifyFactor env_push (length (verify_calls login_events) + 2) ''tok''
        (push_params app1 ''22'' ''st'' (0 < (2::nat))) = Inr (response ''success'' ''assertion'')"
    by (simp add: env_push_def world_defs)
  have h5: "StatusType (response ''success'' ''assertion'') \<noteq> ''pending''"
    by (simp add: response_def)
  have p0: "pending_reply (c_VerifyFactor env_push (length (verify_calls login_events) + 0) ''tok''
                       (push_params app1 ''22'' ''st'' False))"
    by (simp add: env_push_def world_defs pending_reply_def)
  have p1: "pending_reply (c_VerifyFactor env_push (length (verify_calls login_events) + 1) ''tok''
                       (push_params app1 ''22'' ''st'' True))"
    by (simp add: env_push_def world_defs pending_reply_def)
  from push_accepted [OF h1 h2 h3 h4 h5, of 7200] h1 h2 p0 p1 h4 h5 show ?thesis by blast
qed

text \<open>
  C4. The device is OneLogin Protect and the first call and thirty polls all answer
  \<open>pending\<close>. The poll loop ends after exactly thirty polls, each after a sleep of one
  interval; the spinner is stopped and the timeout is announced; MFA verification then
  is the code submission, which starts from that trace with the prompt and the read
  of the code: no error is returned by the push phase.
\<close>

theorem push_budget_elapsed:
  assumes "\<forall>i\<le>30. pending_reply (c_VerifyFactor E (length (verify_calls tr) + i) token
                                  (push_params a deviceID st (0 < i)))"
  shows "\<exists>msg. Get_mfa E a token deviceID MFADeviceOneLoginProtect st tr =
                 Get_otp E a token deviceID st
                   (tr @ push_events a token deviceID st msg 30 @ [SpinnerStop, timeout_notice])
             \<and> fst (Get_otp E a token deviceID st
                   (tr @ push_events a token deviceID st msg 30 @ [SpinnerStop, timeout_notice])) =
                 tr @ push_events a token deviceID st msg 30 @ [SpinnerStop, timeout_notice]
                    @ otp_events token (otp_params a deviceID st (fst (fmt_Scanln E (scanned tr))))"
proof -
  from Get_push_timeout [OF assms] obtain msg r where
    "Get_push E a token deviceID st tr =
       (tr @ push_events a token deviceID st msg 30 @ [SpinnerStop, timeout_notice], Inr (r, False))"
    by blast
  then have "Get_mfa E a token deviceID MFADeviceOneLoginProtect st tr =
                 Get_otp E a token deviceID st
                   (tr @ push_events a token deviceID st msg 30 @ [SpinnerStop, timeout_notice])"
    by (simp add: Get_mfa_def)
  moreover have "scanned [timeout_notice] = 0" by (simp add: timeout_notice_def)
  ultimately show ?thesis by (auto simp: Get_otp_eq)
qed

theorem push_budget_elapsed_witness:
  "pending_reply (c_VerifyFactor env_stalled (length (verify_calls login_events) + 0) ''tok''
                   (push_params app1 ''22'' ''st'' False))
   \<and> pending_reply (c_VerifyFactor env_stalled (length (verify_calls login_events) + 30) ''tok''
                       (push_params app1 ''22'' ''st'' True))
   \<and> (\<exists>msg. Get_mfa env_stalled app1 ''tok'' ''22'' MFADeviceOneLoginProtect ''st'' login_events =
                 Get_otp env_stalled app1 ''tok'' ''22'' ''st''
                   (login_events @ push_events app1 ''tok'' ''22'' ''st'' msg 30 @ [SpinnerStop, timeout_notice])
             \<and> fst (Get_otp env_stalled app1 ''tok'' ''22'' ''st''
                   (login_events @ push_events app1 ''tok'' ''22'' ''st'' msg 30 @ [SpinnerStop, timeout_notice])) =
                 login_events @ push_events app1 ''tok'' ''22'' ''st'' msg 30 @ [SpinnerStop, timeout_notice]
                    @ otp_events ''tok'' (otp_params app1 ''22'' ''st''
                        (fst (fmt_Scanln env_stalled (scanned login_events)))))"
proof -
  have h: "\<forall>i\<le>30. pending_reply (c_VerifyFactor env_stalled (length (verify_calls login_events) + i) ''tok''
                              (push_params app1 ''22'' ''st'' (0 < i)))"
    by (simp add: env_stalled_def world_defs pending_reply_def)
  have p0: "pending_reply (c_VerifyFactor env_stalled (length (verify_calls login_events) + 0) ''tok''
                   (push_params app1 ''22'' ''st'' False))"
    by (simp add: env_stalled_def world_defs pending_reply_def)
  have p30: "pending_reply (c_VerifyFactor env_stalled (length (verify_calls login_events) + 30) ''tok''
                       (push_params app1 ''22'' ''st'' True))"
    by (simp add: env_stalled_def world_defs pending_reply_def)
  from push_budget_elapsed [OF h] p0 p30 show ?thesis by blast
qed

text \<open>
  C7. The device is OneLogin Protect. When the first call, or a poll reached while the
  earlier calls answered \<open>pending\<close>, returns an error, \<open>Get\<close> returns that error
  unchanged. Up to there it has made the calls of the push phase only: no input line
  was read, so no code was asked for, and no role was assumed.
\<close>

theorem push_hard_error:
  assumes "getDevice E devices tr0 = Some (tr, deviceID, MFADeviceOneLoginProtect, err)"
      and "int k \<le> MFAPushTimeout"
      and "\<forall>i<k. pending_reply (c_VerifyFactor E (length (verify_calls tr) + i) token
                                  (push_params a deviceID st (0 < i)))"
      and "c_VerifyFactor E (length (verify_calls tr) + k) token (push_params a deviceID st (0 < k)) = Inl e"
  shows "\<exists>tr'. Get_challenge E a token st devices duration tr0 = Some (tr', Returned (Inl e))
             \<and> Get_mfa E a token deviceID MFADeviceOneLoginProtect st tr = (tr', Inl e)
             \<and> scanned tr' = scanned tr
             \<and> assume_calls tr' = assume_calls tr
             \<and> verify_calls tr' = verify_calls tr @ push_params a deviceID st False
                                     # replicate k (push_params a deviceID st True)"
proof -
  have "k \<le> 30" using assms(2) by (simp add: MFAPushTimeout_def)
  from Get_push_error [OF this assms(3,4)] obtain tr' where
    p: "Get_push E a token deviceID st tr = (tr', Inl e)"
    and t: "scanned tr' = scanned tr" "assume_calls tr' = assume_calls tr"
      "verify_calls tr' = verify_calls tr @ push_params a deviceID st False
                                     # replicate k (push_params a deviceID st True)"
    by blast
  from p have m: "Get_mfa E a token deviceID MFADeviceOneLoginProtect st tr = (tr', Inl e)"
    by (simp add: Get_mfa_def)
  with Get_challenge_mfa [OF assms(1), of a token st duration] t show ?thesis by auto
qed

theorem push_hard_error_witness:
  "getDevice env_broken [protect] login_events =
     Some (login_events, ''22'', MFADeviceOneLoginProtect, None)
   \<and> int 1 \<le> MFAPushTimeout
   \<and> pending_reply (c_VerifyFactor env_broken (length (verify_calls login_events) + 0) ''tok''
                       (push_params app1 ''22'' ''st'' False))
   \<and> c_VerifyFactor env_broken (length (verify_calls login_events) + 1) ''tok''
        (push_params app1 ''22'' ''st'' (0 < (1::nat))) = Inl (Error ''connection reset'')
   \<and> (\<exists>tr'. Get_challenge env_broken app1 ''tok'' ''st'' [protect] 7200 login_events =
                 Some (tr', Returned (Inl (Error ''connection reset'')))
             \<and> Get_mfa env_broken app1 ''tok'' ''22'' MFADeviceOneLoginProtect ''st'' login_events =
                 (tr', Inl (Error ''connection reset''))
             \<and> scanned tr' = scanned login_events
             \<and> assume_calls tr' = assume_calls login_events
             \<and> verify_calls tr' = verify_calls login_events @ push_params app1 ''22'' ''st'' False
                                     # replicate 1 (push_params app1 ''22'' ''st'' True))"
proof -
  have h1: "getDevice env_broken [protect] login_events =
     Some (login_events, ''22'', MFADeviceOneLoginProtect, None)"
    by (simp add: getDevice_def protect_def MFADeviceOneLoginProtect_def Sprint_int_def decimal.simps)
  have h2: "int 1 \<le> MFAPushTimeout" by (simp add: MFAPushTimeout_def)
  have h3: "\<forall>i<1. pending_reply (c_VerifyFactor env_broken (length (verify_calls login_events) + i) ''tok''
                             (push_params app1 ''22'' ''st'' (0 < i)))"
    by (simp add: env_broken_def world_defs pending_reply_def)
  have h4: "c_VerifyFactor env_broken (length (verify_calls login_events) + 1) ''tok''
        (push_params app1 ''22'' ''st'' (0 < (1::nat))) = Inl (Error ''connection reset'')"
    by (simp add: env_broken_def world_defs)
  have p0: "pending_reply (c_VerifyFactor env_broken (length (verify_calls login_events) + 0) ''tok''
                       (push_params app1 ''22'' ''st'' False))"
    by (simp add: env_broken_def world_defs pending_reply_def)
  from push_hard_error [OF h1 h2 h3 h4, of 7200] h1 h2 p0 h4 show ?thesis by blast
qed

text \<open>
  C2, as the code has it. The code is submitted when the device is not OneLogin Protect
  or when the push phase ended with \<open>pushOK\<close> false. \<open>Get\<close> then makes exactly one
  verify-factor call, carrying the code that was read, and never repeats it. When the
  call returns an error the flow fails with \<open>verifying factor:\<close> followed by that
  error. When it returns a response, \<open>Get\<close> hands the response to the exchange without
  reading its status.
\<close>

theorem otp_submission:
  assumes "getDevice E devices tr0 = Some (tr1, deviceID, deviceType, err)"
      and "deviceType \<noteq> MFADeviceOneLoginProtect \<and> tr = tr1
           \<or> deviceType = MFADeviceOneLoginProtect
             \<and> (\<exists>r. Get_push E a token deviceID st tr1 = (tr, Inr (r, False)))"
      and "p = otp_params a deviceID st (fst (fmt_Scanln E (scanned tr)))"
  shows "\<exists>tr' res. Get_challenge E a token st devices duration tr0 = Some (tr', Returned res)
           \<and> verify_calls tr' = verify_calls tr @ [p]
           \<and> scanned tr' = scanned tr + 1
           \<and> (case c_VerifyFactor E (length (verify_calls tr)) token p of
                Inl e \<Rightarrow> tr' = tr @ otp_events token p
                         \<and> res = Inl (Error (''verifying factor: '' @ err_Error e))
              | Inr r \<Rightarrow> (tr', res) = Get_exchange E r duration (tr @ otp_events token p))"
proof -
  have m: "Get_mfa E a token deviceID deviceType st tr1 = Get_otp E a token deviceID st tr"
    using assms(2) by (auto simp: Get_mfa_def)
  have ev: "verify_calls (otp_events token p) = [p]" "scanned (otp_events token p) = 1"
    by (simp_all add: otp_events_def)
  show ?thesis
  proof (cases "c_VerifyFactor E (length (verify_calls tr)) token p")
    case (Inl e)
    then show ?thesis
      using Get_challenge_mfa [OF assms(1), of a token st duration] m assms(3) ev
      by (simp add: Get_otp_eq)
  next
    case (Inr r)
    obtain tr' res where x: "Get_exchange E r duration (tr @ otp_events token p) = (tr', res)"
      by (cases "Get_exchange E r duration (tr @ otp_events token p)") blast
    from Get_exchange_quiet [OF x] ev
    have "verify_calls tr' = verify_calls tr @ [p]" "scanned tr' = scanned tr + 1" by simp_all
    then show ?thesis
      using Get_challenge_mfa [OF assms(1), of a token st duration] m assms(3) Inr x
      by (simp add: Get_otp_eq)
  qed
qed

theorem otp_submission_witness:
  "getDevice env_unauthorized [authenticator] login_events =
     Some (login_events, ''11'', ''Google Authenticator'', None)
   \<and> (''Google Authenticator'' \<noteq> MFADeviceOneLoginProtect \<and> login_events = login_events
      \<or> ''Google Authenticator'' = MFADeviceOneLoginProtect
        \<and> (\<exists>r. Get_push env_unauthorized app1 ''tok'' ''11'' ''st'' login_events =
                  (login_events, Inr (r, False))))
   \<and> otp_params app1 ''11'' ''st'' ''123456'' =
       otp_params app1 ''11'' ''st'' (fst (fmt_Scanln env_unauthorized (scanned login_events)))
   \<and> c_VerifyFactor env_unauthorized (length (verify_calls login_events)) ''tok''
        (otp_params app1 ''11'' ''st'' ''123456'') = Inl (Error ''401'')
   \<and> Get_challenge env_unauthorized app1 ''tok'' ''st'' [authenticator] 7200 login_events =
       Some (login_events @ otp_events ''tok'' (otp_params app1 ''11'' ''st'' ''123456''),
             Returned (Inl (Error ''verifying factor: 401'')))"
proof -
  have h1: "getDevice env_unauthorized [authenticator] login_events =
     Some (login_events, ''11'', ''Google Authenticator'', None)"
    by (simp add: getDevice_def authenticator_def Sprint_int_def decimal.simps)
  have h2: "''Google Authenticator'' \<noteq> MFADeviceOneLoginProtect \<and> login_events = login_events
      \<or> ''Google Authenticator'' = MFADeviceOneLoginProtect
        \<and> (\<exists>r. Get_push env_unauthorized app1 ''tok'' ''11'' ''st'' login_events =
                  (login_events, Inr (r, False)))"
    by (simp add: MFADeviceOneLoginProtect_def)
  have h3: "otp_params app1 ''11'' ''st'' ''123456'' =
       otp_params app1 ''11'' ''st'' (fst (fmt_Scanln env_unauthorized (scanned login_events)))"
    by (simp add: env_unauthorized_def world_defs)
  have h4: "c_VerifyFactor env_unauthorized (length (verify_calls login_events)) ''tok''
        (otp_params app1 ''11'' ''st'' ''123456'') = Inl (Error ''401'')"
    by (simp add: env_unauthorized_def world_defs)
  from otp_submission [OF h1 h2 h3, where duration = 7200] h4
  have "Get_challenge env_unauthorized app1 ''tok'' ''st'' [authenticator] 7200 login_events =
       Some (login_events @ otp_events ''tok'' (otp_params app1 ''11'' ''st'' ''123456''),
             Returned (Inl (Error ''verifying factor: 401'')))"
    by auto
  with h1 h2 h3 h4 show ?thesis by blast
qed

text \<open>
  C2, as the claim has it, fails: in the run where the code is answered, without error,
  by a response of status \<open>rejected\<close>, \<open>Get\<close> returns credentials.
\<close>

theorem otp_rejected_status_counterexample:
  "c_VerifyFactor env_rejected 0 ''tok'' (otp_params app1 ''11'' ''st'' ''123456'') =
     Inr \<lparr>StatusType = ''rejected'', StatusMessage = ''message'', MfaData = ''assertion''\<rparr>
   \<and> Get env_rejected ''app'' ''provider'' 7200 =
     Some (login_events
             @ otp_events ''tok'' (otp_params app1 ''11'' ''st'' ''123456'')
             @ exchange_events \<lparr>Provider = ''idp'', Role = ''role''\<rparr> ''assertion'' 7200,
           Returned (Inr (keys ''first'')))"
  by (simp add: Get_defs env_rejected_def world_defs otp_events_def otp_params_def
        exchange_events_def)

section \<open>The claims on the credential exchange\<close>

text \<open>
  C5. When the first \<open>aws.AssumeSAMLRole\<close> fails with the message
  \<open>aws.ErrDurationExceeded\<close> and the second one, with 3600 seconds, succeeds, the
  exchange returns the credentials of the second call and no error; the first failure
  is logged with \<open>aws.DurationExceededMessage\<close> and nothing else happens.
\<close>

theorem exchange_duration_fallback:
  assumes "saml_Get E (MfaData rMfa) = Inr arn"
      and "aws_AssumeSAMLRole E (length (assume_calls tr)) (Provider arn) (Role arn) (MfaData rMfa) duration = Inl e"
      and "err_Error e = aws_ErrDurationExceeded E"
      and "aws_AssumeSAMLRole E (length (assume_calls tr) + 1) (Provider arn) (Role arn) (MfaData rMfa) 3600 = Inr creds"
  shows "Get_exchange E rMfa duration tr =
           (tr @ exchange_events arn (MfaData rMfa) duration
               @ [LogPrintln (aws_DurationExceededMessage E)]
               @ exchange_events arn (MfaData rMfa) 3600,
            Inr creds)"
  using assms by (simp add: Get_exchange_eq)

theorem exchange_duration_fallback_witness:
  "saml_Get env_long (MfaData (response ''success'' ''assertion'')) =
     Inr \<lparr>Provider = ''idp'', Role = ''role''\<rparr>
   \<and> aws_AssumeSAMLRole env_long (length (assume_calls [])) ''idp'' ''role'' ''assertion'' 7200 =
       Inl (Error ''DurationExceeded'')
   \<and> err_Error (Error ''DurationExceeded'') = aws_ErrDurationExceeded env_long
   \<and> aws_AssumeSAMLRole env_long (length (assume_calls []) + 1) ''idp'' ''role'' ''assertion'' 3600 =
       Inr (keys ''second'')
   \<and> Get_exchange env_long (response ''success'' ''assertion'') 7200 [] =
       (exchange_events \<lparr>Provider = ''idp'', Role = ''role''\<rparr> ''assertion'' 7200
          @ [LogPrintln ''falling back to 1 hour'']
          @ exchange_events \<lparr>Provider = ''idp'', Role = ''role''\<rparr> ''assertion'' 3600,
        Inr (keys ''second''))"
proof -
  let ?arn = "\<lparr>Provider = ''idp'', Role = ''role''\<rparr>"
  let ?r = "response ''success'' ''assertion''"
  have h1: "saml_Get env_long (MfaData ?r) = Inr ?arn"
    by (simp add: env_long_def world_defs)
  have h2: "aws_AssumeSAMLRole env_long (length (assume_calls [])) (Provider ?arn) (Role ?arn)
              (MfaData ?r) 7200 = Inl (Error ''DurationExceeded'')"
    by (simp add: env_long_def world_defs)
  have h3: "err_Error (Error ''DurationExceeded'') = aws_ErrDurationExceeded env_long"
    by (simp add: env_long_def world_defs)
  have h4: "aws_AssumeSAMLRole env_long (length (assume_calls []) + 1) (Provider ?arn) (Role ?arn)
              (MfaData ?r) 3600 = Inr (keys ''second'')"
    by (simp add: env_long_def world_defs)
  have m: "aws_DurationExceededMessage env_long = ''falling back to 1 hour''" "MfaData ?r = ''assertion''"
    by (simp_all add: env_long_def world_defs)
  from exchange_duration_fallback [OF h1 h2 h3 h4] h1 h2 h3 h4 m show ?thesis by simp
qed

text \<open>
  C6. The exchange makes one role-assumption call with the requested duration and at
  most one more, with 3600 seconds. A first error other than
  \<open>aws.ErrDurationExceeded\<close> is returned after that one call; an error of the second
  call is returned; credentials are returned only as the result of the call that
  succeeded, the first one or, after \<open>aws.ErrDurationExceeded\<close>, the second.
\<close>

theorem exchange_attempts:
  assumes "Get_exchange E rMfa duration tr = (tr', res)"
      and "saml_Get E (MfaData rMfa) = Inr arn"
      and "first = aws_AssumeSAMLRole E (length (assume_calls tr)) (Provider arn) (Role arn) (MfaData rMfa) duration"
      and "second = aws_AssumeSAMLRole E (length (assume_calls tr) + 1) (Provider arn) (Role arn) (MfaData rMfa) 3600"
  shows "(assume_calls tr' = assume_calls tr @ [duration]
          \<or> assume_calls tr' = assume_calls tr @ [duration, 3600])
       \<and> (\<forall>e. first = Inl e \<and> err_Error e \<noteq> aws_ErrDurationExceeded E
              \<longrightarrow> res = Inl e \<and> assume_calls tr' = assume_calls tr @ [duration])
       \<and> (\<forall>e e'. first = Inl e \<and> err_Error e = aws_ErrDurationExceeded E \<and> second = Inl e'
              \<longrightarrow> res = Inl e' \<and> assume_calls tr' = assume_calls tr @ [duration, 3600])
       \<and> (\<forall>c. res = Inr c
              \<longrightarrow> first = Inr c \<and> assume_calls tr' = assume_calls tr @ [duration]
                \<or> (\<exists>e. first = Inl e \<and> err_Error e = aws_ErrDurationExceeded E)
                  \<and> second = Inr c \<and> assume_calls tr' = assume_calls tr @ [duration, 3600])"
  using assms(1) unfolding Get_exchange_eq [OF assms(2)] assms(3,4)
  by (auto simp: exchange_events_def split: sum.splits if_splits)

theorem exchange_attempts_witness:
  "Get_exchange env_long (response ''success'' ''assertion'') 7200 [] =
     (exchange_events \<lparr>Provider = ''idp'', Role = ''role''\<rparr> ''assertion'' 7200
        @ [LogPrintln ''falling back to 1 hour'']
        @ exchange_events \<lparr>Provider = ''idp'', Role = ''role''\<rparr> ''assertion'' 3600,
      Inr (keys ''second''))
   \<and> Get_exchange env_denied (response ''success'' ''assertion'') 7200 [] =
     (exchange_events \<lparr>Provider = ''idp'', Role = ''role''\<rparr> ''assertion'' 7200,
      Inl (Error ''AccessDenied''))
   \<and> Get_exchange env_short (response ''success'' ''assertion'') 7200 [] =
     (exchange_events \<lparr>Provider = ''idp'', Role = ''role''\<rparr> ''assertion'' 7200
        @ [LogPrintln ''falling back to 1 hour'']
        @ exchange_events \<lparr>Provider = ''idp'', Role = ''role''\<rparr> ''assertion'' 3600,
      Inl (Error ''ValidationError''))
   \<and> saml_Get env_long (MfaData (response ''success'' ''assertion'')) =
       Inr \<lparr>Provider = ''idp'', Role = ''role''\<rparr>
   \<and> saml_Get env_denied (MfaData (response ''success'' ''assertion'')) =
       Inr \<lparr>Provider = ''idp'', Role = ''role''\<rparr>
   \<and> saml_Get env_short (MfaData (response ''success'' ''assertion'')) =
       Inr \<lparr>Provider = ''idp'', Role = ''role''\<rparr>
   \<and> aws_AssumeSAMLRole env_long 0 ''idp'' ''role'' ''assertion'' 7200 = Inl (Error ''DurationExceeded'')
   \<and> aws_AssumeSAMLRole env_long 1 ''idp'' ''role'' ''assertion'' 3600 = Inr (keys ''second'')
   \<and> aws_AssumeSAMLRole env_denied 0 ''idp'' ''role'' ''assertion'' 7200 = Inl (Error ''AccessDenied'')
   \<and> err_Error (Error ''AccessDenied'') \<noteq> aws_ErrDurationExceeded env_denied
   \<and> aws_AssumeSAMLRole env_short 0 ''idp'' ''role'' ''assertion'' 7200 = Inl (Error ''DurationExceeded'')
   \<and> aws_AssumeSAMLRole env_short 1 ''idp'' ''role'' ''assertion'' 3600 = Inl (Error ''ValidationError'')
   \<and> assume_calls (exchange_events \<lparr>Provider = ''idp'', Role = ''role''\<rparr> ''assertion'' 7200
        @ [LogPrintln ''falling back to 1 hour'']
        @ exchange_events \<lparr>Provider = ''idp'', Role = ''role''\<rparr> ''assertion'' 3600) = [7200, 3600]"
proof -
  let ?arn = "\<lparr>Provider = ''idp'', Role = ''role''\<rparr>"
  let ?r = "response ''success'' ''assertion''"
  let ?one = "exchange_events ?arn ''assertion'' 7200"
  let ?two = "exchange_events ?arn ''assertion'' 7200 @ [LogPrintln ''falling back to 1 hour'']
                @ exchange_events ?arn ''assertion'' 3600"
  have a1: "Get_exchange env_long ?r 7200 [] = (?two, Inr (keys ''second''))"
    by (simp add: Get_exchange_def exchange_events_def env_long_def world_defs)
  have a2: "saml_Get env_long (MfaData ?r) = Inr ?arn"
    by (simp add: env_long_def world_defs)
  have b1: "Get_exchange env_denied ?r 7200 [] = (?one, Inl (Error ''AccessDenied''))"
    by (simp add: Get_exchange_def exchange_events_def env_denied_def world_defs)
  have b2: "saml_Get env_denied (MfaData ?r) = Inr ?arn"
    by (simp add: env_denied_def world_defs)
  have c1: "Get_exchange env_short ?r 7200 [] = (?two, Inl (Error ''ValidationError''))"
    by (simp add: Get_exchange_def exchange_events_def env_short_def world_defs)
  have c2: "saml_Get env_short (MfaData ?r) = Inr ?arn"
    by (simp add: env_short_def world_defs)
  have calls:
    "aws_AssumeSAMLRole env_long 0 ''idp'' ''role'' ''assertion'' 7200 = Inl (Error ''DurationExceeded'')"
    "aws_AssumeSAMLRole env_long 1 ''idp'' ''role'' ''assertion'' 3600 = Inr (keys ''second'')"
    "aws_AssumeSAMLRole env_denied 0 ''idp'' ''role'' ''assertion'' 7200 = Inl (Error ''AccessDenied'')"
    "err_Error (Error ''AccessDenied'') \<noteq> aws_ErrDurationExceeded env_denied"
    "aws_AssumeSAMLRole env_short 0 ''idp'' ''role'' ''assertion'' 7200 = Inl (Error ''DurationExceeded'')"
    "aws_AssumeSAMLRole env_short 1 ''idp'' ''role'' ''assertion'' 3600 = Inl (Error ''ValidationError'')"
    by (simp_all add: env_long_def env_denied_def env_short_def world_defs)
  have x: "assume_calls ?two = assume_calls [] @ [7200]
           \<or> assume_calls ?two = assume_calls [] @ [7200, 3600]"
    using exchange_attempts [OF a1 a2 refl refl] by (rule conjunct1)
  have y: "assume_calls ?one = assume_calls [] @ [7200]
           \<or> assume_calls ?one = assume_calls [] @ [7200, 3600]"
    using exchange_attempts [OF b1 b2 refl refl] by (rule conjunct1)
  have z: "assume_calls ?two = assume_calls [] @ [7200]
           \<or> assume_calls ?two = assume_calls [] @ [7200, 3600]"
    using exchange_attempts [OF c1 c2 refl refl] by (rule conjunct1)
  have n: "assume_calls ?two = [7200, 3600]"
    using x y z by (simp add: exchange_events_def)
  show ?thesis
    using a1 a2 b1 b2 c1 c2 calls n by (intro conjI)
qed

end
